theory Spec2Isabelle
  imports Complex_Main "HOL-Library.Multiset"
begin

section \<open>Python values and the built-ins used by \<open>category_mapping\<close>\<close>

text \<open>
  The function under study is dynamically typed and dispatches on the exceptions that
  its built-ins raise, so the model works over a small universe of Python values:
  numbers, strings, lists and tuples.  Numbers (ints and finite floats) are exact
  rationals; Python compares an int with a float by exact value, and so does the model.
  A decimal literal such as 1.3 is written as the rational 13/10.

  Exceptions are values: a computation returns \<open>Inl e\<close> when Python raises \<open>e\<close>.
\<close>

datatype py_error = TypeError | IndexError | ValueError

datatype pyval = Num rat | Str string | Lst "pyval list" | Tup "pyval list"

text \<open>\<open>len(x)\<close>: a number has no length.\<close>

fun py_len :: "pyval \<Rightarrow> py_error + nat" where
  "py_len (Num _) = Inl TypeError"
| "py_len (Str s) = Inr (length s)"
| "py_len (Lst xs) = Inr (length xs)"
| "py_len (Tup xs) = Inr (length xs)"

text \<open>\<open>iter(x)\<close>, run to the end: a string yields its one-character strings.\<close>

fun py_iter :: "pyval \<Rightarrow> py_error + pyval list" where
  "py_iter (Num _) = Inl TypeError"
| "py_iter (Str s) = Inr (map (\<lambda>c. Str [c]) s)"
| "py_iter (Lst xs) = Inr xs"
| "py_iter (Tup xs) = Inr xs"

text \<open>
  \<open>x[i]\<close> for an integer \<open>i\<close>: a number is not subscriptable (TypeError), a negative
  index counts from the end, and an index outside the sequence raises IndexError.
\<close>

definition py_getitem :: "pyval \<Rightarrow> int \<Rightarrow> py_error + pyval" where
  "py_getitem x i =
     (case py_iter x of
        Inl e \<Rightarrow> Inl e
      | Inr xs \<Rightarrow>
          (let j = (if i < 0 then i + int (length xs) else i)
           in if j < 0 \<or> int (length xs) \<le> j then Inl IndexError else Inr (xs ! nat j)))"

text \<open>
  \<open>a < b\<close>.  Numbers compare by value, strings by their characters, lists with lists
  and tuples with tuples lexicographically: the first position where the two differ
  decides, by \<open><\<close> on the two items found there, and a proper prefix is smaller.
  Every other combination raises TypeError.
\<close>

fun str_lt :: "string \<Rightarrow> string \<Rightarrow> bool" where
  "str_lt [] [] = False"
| "str_lt [] (d # ds) = True"
| "str_lt (c # cs) [] = False"
| "str_lt (c # cs) (d # ds) =
     (if c = d then str_lt cs ds else (of_char c :: nat) < of_char d)"

fun py_lt :: "pyval \<Rightarrow> pyval \<Rightarrow> py_error + bool"
  and seq_lt :: "pyval list \<Rightarrow> pyval list \<Rightarrow> py_error + bool" where
  "py_lt (Num a) (Num b) = Inr (a < b)"
| "py_lt (Str s) (Str t) = Inr (str_lt s t)"
| "py_lt (Lst xs) (Lst ys) = seq_lt xs ys"
| "py_lt (Tup xs) (Tup ys) = seq_lt xs ys"
| "py_lt _ _ = Inl TypeError"
| "seq_lt [] [] = Inr False"
| "seq_lt [] (y # ys) = Inr True"
| "seq_lt (x # xs) [] = Inr False"
| "seq_lt (x # xs) (y # ys) = (if x = y then seq_lt xs ys else py_lt x y)"

text \<open>A list comprehension whose body may raise: the first exception, in order, wins.\<close>

fun map_result :: "('a \<Rightarrow> py_error + 'b) \<Rightarrow> 'a list \<Rightarrow> py_error + 'b list" where
  "map_result f [] = Inr []"
| "map_result f (x # xs) =
     (case f x of
        Inl e \<Rightarrow> Inl e
      | Inr y \<Rightarrow> (case map_result f xs of Inl e \<Rightarrow> Inl e | Inr ys \<Rightarrow> Inr (y # ys)))"

text \<open>
  \<open>zip\<close> of already materialised rows: as many columns as the shortest row has items,
  and none for no rows at all.
\<close>

definition zip_rows :: "'a list list \<Rightarrow> 'a list list" where
  "zip_rows rs =
     (case rs of
        [] \<Rightarrow> []
      | r # _ \<Rightarrow> map (\<lambda>i. map (\<lambda>row. row ! i) rs) [0..<fold min (map length rs) (length r)])"

text \<open>\<open>[list(x) for x in zip(*cats)]\<close>: every row of \<open>cats\<close> has to be iterable.\<close>

definition py_zip_star :: "pyval \<Rightarrow> py_error + pyval list list" where
  "py_zip_star cats =
     (case py_iter cats of
        Inl e \<Rightarrow> Inl e
      | Inr rows \<Rightarrow>
          (case map_result py_iter rows of
             Inl e \<Rightarrow> Inl e
           | Inr cols \<Rightarrow> Inr (zip_rows cols)))"

text \<open>
  \<open>sorted\<close> as a stable insertion sort on (key, item) pairs that asks only \<open><\<close> of two
  keys and passes on the TypeError of a comparison that fails.  For two items this is
  the one comparison CPython makes (second key \<open><\<close> first key).  Whenever all keys are
  numbers, or all are strings, no comparison fails and any stable sort returns this
  list; whenever both numbers and strings occur among the keys, every comparison sort
  has to compare a number with a string and raises.
\<close>

fun insort_by :: "pyval \<times> 'a \<Rightarrow> (pyval \<times> 'a) list \<Rightarrow> py_error + (pyval \<times> 'a) list" where
  "insort_by x [] = Inr [x]"
| "insort_by x (y # ys) =
     (case py_lt (fst y) (fst x) of
        Inl e \<Rightarrow> Inl e
      | Inr True \<Rightarrow> (case insort_by x ys of Inl e \<Rightarrow> Inl e | Inr zs \<Rightarrow> Inr (y # zs))
      | Inr False \<Rightarrow> Inr (x # y # ys))"

fun sort_by :: "(pyval \<times> 'a) list \<Rightarrow> py_error + (pyval \<times> 'a) list" where
  "sort_by [] = Inr []"
| "sort_by (x # xs) = (case sort_by xs of Inl e \<Rightarrow> Inl e | Inr ys \<Rightarrow> insort_by x ys)"

text \<open>
  \<open>sorted(cats, key=lambda x: x[-1])\<close>: the keys of all rows are computed first, then
  the rows are sorted by them.
\<close>

definition py_sorted_last :: "pyval \<Rightarrow> py_error + pyval list" where
  "py_sorted_last cats =
     (case py_iter cats of
        Inl e \<Rightarrow> Inl e
      | Inr rows \<Rightarrow>
          (case map_result (\<lambda>x. py_getitem x (- 1)) rows of
             Inl e \<Rightarrow> Inl e
           | Inr keys \<Rightarrow>
               (case sort_by (zip keys rows) of
                  Inl e \<Rightarrow> Inl e
                | Inr sorted_pairs \<Rightarrow> Inr (map snd sorted_pairs))))"

text \<open>
  \<open>bisect(a, x)\<close>, which is \<open>bisect_right\<close>: the loop of the standard library,
  \<open>lo, hi = 0, len(a)\<close>; while \<open>lo < hi\<close>: \<open>mid = (lo + hi) // 2\<close>;
  if \<open>x < a[mid]\<close> then \<open>hi = mid\<close> else \<open>lo = mid + 1\<close>; return \<open>lo\<close>.
\<close>

function bisect_loop :: "pyval list \<Rightarrow> pyval \<Rightarrow> nat \<Rightarrow> nat \<Rightarrow> py_error + nat" where
  "bisect_loop a x lo hi =
     (if lo < hi
      then (case py_lt x (a ! ((lo + hi) div 2)) of
              Inl e \<Rightarrow> Inl e
            | Inr True \<Rightarrow> bisect_loop a x lo ((lo + hi) div 2)
            | Inr False \<Rightarrow> bisect_loop a x ((lo + hi) div 2 + 1) hi)
      else Inr lo)"
  by pat_completeness auto
termination
  by (relation "measure (\<lambda>(a, x, lo, hi). hi - lo)") auto

declare bisect_loop.simps [simp del]

definition bisect :: "pyval list \<Rightarrow> pyval \<Rightarrow> py_error + nat" where
  "bisect a x = bisect_loop a x 0 (length a)"

section \<open>The function \<open>category_mapping\<close>\<close>

text \<open>
  Lines 63 to 66.  The value of \<open>len(cats[0]) == 2 and isiter(cats, ...)\<close> is thrown
  away; only a TypeError raised while computing it has an effect, namely the
  transposition of \<open>cats\<close>.  Any other exception leaves the function.  The predicate
  \<open>isiter\<close> is imported from another package and is a parameter of the model; it is
  called only when the first row has length 2.
\<close>

definition first_block :: "(pyval \<Rightarrow> py_error + bool) \<Rightarrow> pyval \<Rightarrow> py_error + pyval" where
  "first_block isiter cats =
     (case (case py_getitem cats 0 of
              Inl e \<Rightarrow> Inl e
            | Inr c0 \<Rightarrow>
                (case py_len c0 of
                   Inl e \<Rightarrow> Inl e
                 | Inr n \<Rightarrow> if n = 2 then isiter cats else Inr False)) of
        Inl TypeError \<Rightarrow>
          (case py_zip_star cats of Inl e \<Rightarrow> Inl e | Inr t \<Rightarrow> Inr (Lst (map Lst t)))
      | Inl e \<Rightarrow> Inl e
      | Inr _ \<Rightarrow> Inr cats)"

text \<open>Lines 68 to 72: sort by the last item of each row; on TypeError transpose and retry.\<close>

definition sort_block :: "pyval \<Rightarrow> py_error + pyval list" where
  "sort_block cats =
     (case py_sorted_last cats of
        Inl TypeError \<Rightarrow>
          (case py_zip_star cats of
             Inl e \<Rightarrow> Inl e
           | Inr t \<Rightarrow> py_sorted_last (Lst (map Lst t)))
      | Inl e \<Rightarrow> Inl e
      | Inr s \<Rightarrow> Inr s)"

text \<open>The body of the comprehension of line 76: \<open>(i, cat0[bisect(cat1, i[1])])\<close>.\<close>

definition lookup_label :: "pyval list \<Rightarrow> pyval list \<Rightarrow> pyval \<Rightarrow> py_error + pyval \<times> pyval" where
  "lookup_label cat0 cat1 i =
     (case py_getitem i 1 of
        Inl e \<Rightarrow> Inl e
      | Inr v \<Rightarrow>
          (case bisect cat1 v of
             Inl e \<Rightarrow> Inl e
           | Inr k \<Rightarrow> if k < length cat0 then Inr (i, cat0 ! k) else Inl IndexError))"

text \<open>
  Lines 68 to 76.  The unpacking \<open>cat0, cat1 = ...\<close> of line 74 raises ValueError unless
  the transposed table has exactly two rows.
\<close>

definition sort_and_map :: "pyval list \<Rightarrow> pyval \<Rightarrow> py_error + (pyval \<times> pyval) list" where
  "sort_and_map iterable cats =
     (case sort_block cats of
        Inl e \<Rightarrow> Inl e
      | Inr s \<Rightarrow>
          (case py_zip_star (Lst s) of
             Inl e \<Rightarrow> Inl e
           | Inr [cat0, cat1] \<Rightarrow> map_result (lookup_label cat0 cat1) iterable
           | Inr _ \<Rightarrow> Inl ValueError))"

text \<open>The whole function; \<open>iterable\<close> is the finite sequence of the items it yields.\<close>

definition category_mapping ::
  "(pyval \<Rightarrow> py_error + bool) \<Rightarrow> pyval list \<Rightarrow> pyval \<Rightarrow> py_error + (pyval \<times> pyval) list" where
  "category_mapping isiter iterable cats =
     (case first_block isiter cats of
        Inl e \<Rightarrow> Inl e
      | Inr cats' \<Rightarrow> sort_and_map iterable cats')"

text \<open>The two documented shapes of a table with the categories \<open>cs\<close>.\<close>

definition shape_A :: "(pyval \<times> rat) list \<Rightarrow> pyval" where
  "shape_A cs = Lst [Lst (map fst cs), Lst (map (\<lambda>c. Num (snd c)) cs)]"

definition shape_B :: "(pyval \<times> rat) list \<Rightarrow> pyval" where
  "shape_B cs = Lst (map (\<lambda>c. Tup [fst c, Num (snd c)]) cs)"

fun is_Num :: "pyval \<Rightarrow> bool" where
  "is_Num (Num _) = True"
| "is_Num _ = False"

text \<open>The number an item carries at position 1, if it carries one.\<close>

definition item_value :: "pyval \<Rightarrow> rat option" where
  "item_value i = (case py_getitem i 1 of Inr (Num v) \<Rightarrow> Some v | _ \<Rightarrow> None)"

text \<open>\<open>len(cats[0])\<close> can be computed.\<close>

definition first_has_len :: "pyval \<Rightarrow> bool" where
  "first_has_len cats =
     (case py_getitem cats 0 of
        Inl _ \<Rightarrow> False
      | Inr c0 \<Rightarrow> (case py_len c0 of Inl _ \<Rightarrow> False | Inr _ \<Rightarrow> True))"

text \<open>
  The variant of \<open>category_mapping\<close> in which lines 63 to 66 are deleted: the function
  starts with the sort of line 68, on the table as the caller passed it.
\<close>

definition category_mapping_without_first_block ::
  "pyval list \<Rightarrow> pyval \<Rightarrow> py_error + (pyval \<times> pyval) list" where
  "category_mapping_without_first_block iterable cats =
     (case (case py_sorted_last cats of
              Inl TypeError \<Rightarrow>
                (case py_zip_star cats of
                   Inl e \<Rightarrow> Inl e
                 | Inr t \<Rightarrow> py_sorted_last (Lst (map Lst t)))
            | Inl e \<Rightarrow> Inl e
            | Inr s \<Rightarrow> Inr s) of
        Inl e \<Rightarrow> Inl e
      | Inr s \<Rightarrow>
          (case py_zip_star (Lst s) of
             Inl e \<Rightarrow> Inl e
           | Inr [cat0, cat1] \<Rightarrow>
               map_result (\<lambda>i. case py_getitem i 1 of
                                Inl e \<Rightarrow> Inl e
                              | Inr v \<Rightarrow>
                                  (case bisect cat1 v of
                                     Inl e \<Rightarrow> Inl e
                                   | Inr k \<Rightarrow>
                                       if k < length cat0 then Inr (i, cat0 ! k)
                                       else Inl IndexError)) iterable
           | Inr _ \<Rightarrow> Inl ValueError))"

text \<open>
  Sample data: the table of the documentation, cut to three categories, and a predicate
  standing for \<open>isiter\<close> that accepts lists and tuples and rejects strings and numbers.
\<close>

definition docstring_cats :: "(pyval \<times> rat) list" where
  "docstring_cats = [(Str ''barato'', 13 / 10), (Str ''mais ou menos'', 2), (Str ''caro'', 31 / 10)]"

fun isiter_sample :: "pyval \<Rightarrow> py_error + bool" where
  "isiter_sample (Lst _) = Inr True"
| "isiter_sample (Tup _) = Inr True"
| "isiter_sample _ = Inr False"

section \<open>Auxiliary facts\<close>

text \<open>The definitions a concrete run unfolds.\<close>

lemmas eval_defs = category_mapping_def first_block_def sort_and_map_def sort_block_def
  py_sorted_last_def py_zip_star_def zip_rows_def lookup_label_def py_getitem_def
  bisect_def bisect_loop.simps shape_A_def shape_B_def item_value_def

lemma without_first_block_sort_and_map:
  "category_mapping_without_first_block it cats = sort_and_map it cats"
  unfolding category_mapping_without_first_block_def sort_and_map_def sort_block_def
    lookup_label_def [abs_def]
  by (rule refl)

lemma map_result_all_ok:
  "(\<And>x. x \<in> set xs \<Longrightarrow> f x = Inr (g x)) \<Longrightarrow> map_result f xs = Inr (map g xs)"
  by (induction xs) simp_all

lemma map_result_length:
  "map_result f xs = Inr ys \<Longrightarrow> length ys = length xs"
  by (induction xs arbitrary: ys) (auto split: sum.splits)

lemma map_result_nth:
  "map_result f xs = Inr ys \<Longrightarrow> k < length xs \<Longrightarrow> f (xs ! k) = Inr (ys ! k)"
proof (induction xs arbitrary: ys k)
  case Nil
  then show ?case by simp
next
  case (Cons x xs)
  then show ?case by (cases k) (auto split: sum.splits)
qed

lemma map_result_first_error:
  "(\<And>x. x \<in> set xs \<Longrightarrow> f x = Inl e \<or> (\<exists>y. f x = Inr y)) \<Longrightarrow>
   \<exists>x \<in> set xs. f x = Inl e \<Longrightarrow> map_result f xs = Inl e"
proof (induction xs)
  case Nil
  then show ?case by simp
next
  case (Cons x xs)
  show ?case
  proof (cases "f x")
    case (Inl e')
    with Cons.prems(1) [of x] have "e' = e" by auto
    with Inl show ?thesis by simp
  next
    case (Inr y)
    with Cons.prems(2) have "\<exists>x \<in> set xs. f x = Inl e" by auto
    with Cons.IH Cons.prems(1) have "map_result f xs = Inl e" by simp
    with Inr show ?thesis by simp
  qed
qed

lemma insort_by_num:
  "insort_by (Num (k x), r x) (map (\<lambda>c. (Num (k c), r c)) ys) =
   Inr (map (\<lambda>c. (Num (k c), r c)) (insort_key k x ys))"
  by (induction ys) (auto simp: not_less)

lemma sort_by_num:
  "sort_by (map (\<lambda>c. (Num (k c), r c)) xs) = Inr (map (\<lambda>c. (Num (k c), r c)) (sort_key k xs))"
  by (induction xs) (simp_all add: insort_by_num)

lemma fold_min_const: "\<forall>r \<in> set rs. length r = n \<Longrightarrow> fold min (map length rs) n = n"
  by (induction rs) simp_all

lemma zip_rows_pairs:
  "xs \<noteq> [] \<Longrightarrow> zip_rows (map (\<lambda>c. [a c, b c]) xs) = [map a xs, map b xs]"
proof -
  assume "xs \<noteq> []"
  then obtain y ys where xs: "xs = y # ys" by (cases xs) auto
  have "fold min (map length (map (\<lambda>c. [a c, b c]) xs)) 2 = 2"
    by (rule fold_min_const) simp
  then have "fold min (map (\<lambda>c. Suc (Suc 0)) ys) (Suc (Suc 0)) = Suc (Suc 0)"
    by (simp add: xs comp_def numeral_2_eq_2)
  then show ?thesis
    by (simp add: zip_rows_def xs comp_def upt_rec numeral_2_eq_2)
qed

lemma zip_rows_columns:
  "zip_rows [map a cs, map b cs] = map (\<lambda>c. [a c, b c]) cs"
proof -
  have "fold min (map length [map a cs, map b cs]) (length (map a cs)) = length cs"
    by simp
  then have "zip_rows [map a cs, map b cs] =
      map (\<lambda>i. map (\<lambda>row. row ! i) [map a cs, map b cs]) [0..<length cs]"
    unfolding zip_rows_def by (simp only: list.case)
  also have "\<dots> = map (\<lambda>c. [a c, b c]) cs"
    by (rule nth_equalityI) simp_all
  finally show ?thesis .
qed

lemma py_lt_Num_TypeError: "\<not> is_Num x \<Longrightarrow> py_lt (Num t) x = Inl TypeError"
  by (cases x) simp_all

lemma py_getitem_last_pair [simp]:
  "py_getitem (Tup [a, b]) (- 1) = Inr b" "py_getitem (Lst [a, b]) (- 1) = Inr b"
  by (simp_all add: py_getitem_def)

lemma py_getitem_last_Lst: "xs \<noteq> [] \<Longrightarrow> py_getitem (Lst xs) (- 1) = Inr (last xs)"
proof -
  assume ne: "xs \<noteq> []"
  then have "nat (int (length xs) - 1) = length xs - 1" by (cases xs) simp_all
  with ne show ?thesis by (simp add: py_getitem_def last_conv_nth)
qed

lemma py_getitem_first_Lst: "xs \<noteq> [] \<Longrightarrow> py_getitem (Lst xs) 0 = Inr (hd xs)"
  by (simp add: py_getitem_def hd_conv_nth)

lemma py_getitem_empty [simp]: "py_getitem (Lst []) i = Inl IndexError"
  by (simp add: py_getitem_def)

lemma py_sorted_last_num:
  assumes "\<And>c. c \<in> set cs \<Longrightarrow> py_getitem (r c) (- 1) = Inr (Num (k c))"
  shows "py_sorted_last (Lst (map r cs)) = Inr (map r (sort_key k cs))"
proof -
  have "map_result (\<lambda>x. py_getitem x (- 1)) (map r cs) = Inr (map (\<lambda>c. Num (k c)) cs)"
    using assms by (induction cs) simp_all
  moreover have "zip (map (\<lambda>c. Num (k c)) cs) (map r cs) = map (\<lambda>c. (Num (k c), r c)) cs"
    by (induction cs) simp_all
  ultimately show ?thesis
    by (simp add: py_sorted_last_def sort_by_num comp_def)
qed

lemma sort_block_shape_B:
  "sort_block (shape_B cs) = Inr (map (\<lambda>c. Tup [fst c, Num (snd c)]) (sort_key snd cs))"
  unfolding sort_block_def shape_B_def
  by (subst py_sorted_last_num [where k = snd]) simp_all

lemma py_sorted_last_shape_A:
  assumes "cs \<noteq> []" and "\<not> is_Num (fst (last cs))"
  shows "py_sorted_last (shape_A cs) = Inl TypeError"
proof -
  have "py_getitem (Lst (map fst cs)) (- 1) = Inr (fst (last cs))"
    using assms(1) by (simp add: py_getitem_last_Lst last_map)
  moreover have "py_getitem (Lst (map (\<lambda>c. Num (snd c)) cs)) (- 1) = Inr (Num (snd (last cs)))"
    using assms(1) by (simp add: py_getitem_last_Lst last_map)
  ultimately show ?thesis
    using assms(2) by (simp add: py_sorted_last_def shape_A_def py_lt_Num_TypeError)
qed

lemma py_zip_star_shape_A:
  "py_zip_star (shape_A cs) = Inr (map (\<lambda>c. [fst c, Num (snd c)]) cs)"
  by (simp add: py_zip_star_def shape_A_def zip_rows_columns)

lemma sort_block_shape_A:
  assumes "cs \<noteq> []" and "\<not> is_Num (fst (last cs))"
  shows "sort_block (shape_A cs) = Inr (map (\<lambda>c. Lst [fst c, Num (snd c)]) (sort_key snd cs))"
proof -
  have "py_sorted_last (Lst (map (\<lambda>c. Lst [fst c, Num (snd c)]) cs)) =
      Inr (map (\<lambda>c. Lst [fst c, Num (snd c)]) (sort_key snd cs))"
    by (rule py_sorted_last_num) simp
  then show ?thesis
    by (simp add: sort_block_def py_sorted_last_shape_A [OF assms] py_zip_star_shape_A comp_def)
qed

lemma py_zip_star_rows:
  assumes "s \<noteq> []" and "\<And>c. c \<in> set s \<Longrightarrow> py_iter (r c) = Inr [a c, b c]"
  shows "py_zip_star (Lst (map r s)) = Inr [map a s, map b s]"
proof -
  have "map_result py_iter (map r s) = Inr (map (\<lambda>c. [a c, b c]) s)"
    using assms(2) by (induction s) simp_all
  then show ?thesis
    by (simp add: py_zip_star_def zip_rows_pairs [OF assms(1)])
qed

lemma sort_key_Nil_iff: "sort_key k cs = [] \<longleftrightarrow> cs = []"
  by (metis length_sort length_0_conv)

lemma sort_and_map_shape_B:
  assumes "cs \<noteq> []"
  shows "sort_and_map it (shape_B cs) =
    map_result (lookup_label (map fst (sort_key snd cs)) (map (\<lambda>c. Num (snd c)) (sort_key snd cs))) it"
proof -
  have "py_zip_star (Lst (map (\<lambda>c. Tup [fst c, Num (snd c)]) (sort_key snd cs))) =
      Inr [map fst (sort_key snd cs), map (\<lambda>c. Num (snd c)) (sort_key snd cs)]"
    by (rule py_zip_star_rows) (simp_all add: sort_key_Nil_iff assms)
  then show ?thesis
    by (simp add: sort_and_map_def sort_block_shape_B)
qed

lemma sort_and_map_shape_A:
  assumes "cs \<noteq> []" and "\<not> is_Num (fst (last cs))"
  shows "sort_and_map it (shape_A cs) =
    map_result (lookup_label (map fst (sort_key snd cs)) (map (\<lambda>c. Num (snd c)) (sort_key snd cs))) it"
proof -
  have "py_zip_star (Lst (map (\<lambda>c. Lst [fst c, Num (snd c)]) (sort_key snd cs))) =
      Inr [map fst (sort_key snd cs), map (\<lambda>c. Num (snd c)) (sort_key snd cs)]"
    by (rule py_zip_star_rows) (simp_all add: sort_key_Nil_iff assms)
  then show ?thesis
    by (simp add: sort_and_map_def sort_block_shape_A [OF assms])
qed

lemma first_block_keeps:
  assumes "py_getitem cats 0 = Inr c0" and "py_len c0 = Inr n" and "isiter cats = Inr b"
  shows "first_block isiter cats = Inr cats"
  using assms by (simp add: first_block_def)

lemma first_block_shape_B:
  assumes "cs \<noteq> []" and "isiter (shape_B cs) = Inr b"
  shows "first_block isiter (shape_B cs) = Inr (shape_B cs)"
proof -
  have "py_getitem (shape_B cs) 0 = Inr (Tup [fst (hd cs), Num (snd (hd cs))])"
    using assms(1) by (simp add: shape_B_def py_getitem_first_Lst hd_map)
  then show ?thesis
    using assms(2) by (simp add: first_block_def)
qed

lemma first_block_shape_A:
  assumes "isiter (shape_A cs) = Inr b"
  shows "first_block isiter (shape_A cs) = Inr (shape_A cs)"
proof -
  have "py_getitem (shape_A cs) 0 = Inr (Lst (map fst cs))"
    by (simp add: shape_A_def py_getitem_def)
  then show ?thesis
    using assms by (simp add: first_block_def)
qed

lemma bisect_loop_num:
  assumes "sorted ts"
  shows "lo \<le> hi \<Longrightarrow> hi \<le> length ts \<Longrightarrow> (\<forall>i<lo. ts ! i \<le> v) \<Longrightarrow>
     (\<forall>i. hi \<le> i \<and> i < length ts \<longrightarrow> v < ts ! i) \<Longrightarrow>
     \<exists>k. bisect_loop (map Num ts) (Num v) lo hi = Inr k \<and> k \<le> length ts \<and>
       (\<forall>i<k. ts ! i \<le> v) \<and> (\<forall>i. k \<le> i \<and> i < length ts \<longrightarrow> v < ts ! i)"
proof (induction "map Num ts" "Num v" lo hi rule: bisect_loop.induct)
  case (1 lo hi)
  let ?mid = "(lo + hi) div 2"
  show ?case
  proof (cases "lo < hi")
    case False
    with "1.prems" have "lo = hi" by simp
    with "1.prems" show ?thesis
      by (subst bisect_loop.simps) auto
  next
    case True
    then have mid: "lo \<le> ?mid" "?mid < hi" by simp_all
    with "1.prems" have mid_len: "?mid < length ts" by simp
    then have cmp: "py_lt (Num v) (map Num ts ! ?mid) = Inr (v < ts ! ?mid)" by simp
    show ?thesis
    proof (cases "v < ts ! ?mid")
      case less: True
      have above: "\<forall>i. ?mid \<le> i \<and> i < length ts \<longrightarrow> v < ts ! i"
      proof (intro allI impI)
        fix i assume "?mid \<le> i \<and> i < length ts"
        then have "ts ! ?mid \<le> ts ! i"
          using assms by (simp add: sorted_nth_mono)
        with less show "v < ts ! i" by simp
      qed
      have "\<exists>k. bisect_loop (map Num ts) (Num v) lo ?mid = Inr k \<and> k \<le> length ts \<and>
          (\<forall>i<k. ts ! i \<le> v) \<and> (\<forall>i. k \<le> i \<and> i < length ts \<longrightarrow> v < ts ! i)"
        using "1.hyps"(1) [OF True cmp] less mid mid_len "1.prems"(3) above by simp
      then show ?thesis
        using True cmp less by (subst bisect_loop.simps) simp
    next
      case geq: False
      have below: "\<forall>i<?mid + 1. ts ! i \<le> v"
      proof (intro allI impI)
        fix i assume "i < ?mid + 1"
        then have "ts ! i \<le> ts ! ?mid"
          using assms mid_len by (simp add: sorted_nth_mono)
        with geq show "ts ! i \<le> v" by simp
      qed
      have "\<exists>k. bisect_loop (map Num ts) (Num v) (?mid + 1) hi = Inr k \<and> k \<le> length ts \<and>
          (\<forall>i<k. ts ! i \<le> v) \<and> (\<forall>i. k \<le> i \<and> i < length ts \<longrightarrow> v < ts ! i)"
        using "1.hyps"(2) [OF True cmp] geq mid "1.prems"(2,4) below by simp
      then show ?thesis
        using True cmp geq by (subst bisect_loop.simps) simp
    qed
  qed
qed

lemma bisect_num:
  assumes "sorted ts"
  shows "\<exists>k. bisect (map Num ts) (Num v) = Inr k \<and> k \<le> length ts \<and>
       (\<forall>i<k. ts ! i \<le> v) \<and> (\<forall>i. k \<le> i \<and> i < length ts \<longrightarrow> v < ts ! i)"
  unfolding bisect_def using bisect_loop_num [OF assms, of 0 "length ts" v] by simp

lemma item_value_SomeD: "item_value i = Some v \<Longrightarrow> py_getitem i 1 = Inr (Num v)"
  by (auto simp: item_value_def split: sum.splits pyval.splits)

lemma lookup_label_sorted:
  assumes "item_value i = Some v" and "sorted (map snd s)"
  shows "\<exists>k\<le>length s. (\<forall>j<k. snd (s ! j) \<le> v) \<and> (\<forall>j. k \<le> j \<and> j < length s \<longrightarrow> v < snd (s ! j)) \<and>
     lookup_label (map fst s) (map (\<lambda>c. Num (snd c)) s) i =
       (if k < length s then Inr (i, fst (s ! k)) else Inl IndexError)"
proof -
  obtain k where k: "bisect (map Num (map snd s)) (Num v) = Inr k" "k \<le> length (map snd s)"
      "\<forall>j<k. map snd s ! j \<le> v" "\<forall>j. k \<le> j \<and> j < length (map snd s) \<longrightarrow> v < map snd s ! j"
    using bisect_num [OF assms(2), of v] by blast
  have "lookup_label (map fst s) (map (\<lambda>c. Num (snd c)) s) i =
       (if k < length s then Inr (i, fst (s ! k)) else Inl IndexError)"
    using k(1) item_value_SomeD [OF assms(1)] by (simp add: lookup_label_def comp_def)
  moreover have "\<forall>j<k. snd (s ! j) \<le> v" using k(2,3) by simp
  moreover have "\<forall>j. k \<le> j \<and> j < length s \<longrightarrow> v < snd (s ! j)" using k(4) by simp
  ultimately show ?thesis using k(2) by auto
qed

lemma lookup_label_fst: "lookup_label cat0 cat1 i = Inr y \<Longrightarrow> fst y = i"
  by (auto simp: lookup_label_def split: sum.splits if_splits)

text \<open>Both shapes lead to the same two columns.\<close>

lemma category_mapping_canonical:
  assumes "cs \<noteq> []"
    and "tbl = shape_B cs \<or> tbl = shape_A cs \<and> \<not> is_Num (fst (last cs))"
    and "isiter tbl = Inr b"
  shows "category_mapping isiter it tbl =
    map_result (lookup_label (map fst (sort_key snd cs)) (map (\<lambda>c. Num (snd c)) (sort_key snd cs))) it"
  using assms
  by (auto simp: category_mapping_def first_block_shape_A first_block_shape_B
      sort_and_map_shape_A sort_and_map_shape_B)

lemma map_result_ex:
  "(\<And>x. x \<in> set xs \<Longrightarrow> \<exists>y. f x = Inr y) \<Longrightarrow> \<exists>ys. map_result f xs = Inr ys"
proof (induction xs)
  case Nil
  then show ?case by simp
next
  case (Cons x xs)
  then obtain y where "f x = Inr y" by force
  moreover from Cons obtain ys where "map_result f xs = Inr ys" by force
  ultimately show ?case by simp
qed

lemma sorted_index_of_member:
  assumes "c \<in> set cs"
  shows "\<exists>j<length (sort_key snd cs). sort_key snd cs ! j = c"
proof -
  from assms have "c \<in> set (sort_key snd cs)" by simp
  then show ?thesis unfolding in_set_conv_nth by blast
qed

lemma lookup_label_below_max:
  assumes "cs \<noteq> []" and "item_value i = Some v" and "v < Max (set (map snd cs))"
  shows "\<exists>k<length cs. lookup_label (map fst (sort_key snd cs)) (map (\<lambda>c. Num (snd c)) (sort_key snd cs)) i =
        Inr (i, fst (sort_key snd cs ! k)) \<and>
      (\<forall>j<k. snd (sort_key snd cs ! j) \<le> v) \<and>
      (\<forall>j. k \<le> j \<and> j < length cs \<longrightarrow> v < snd (sort_key snd cs ! j))"
proof -
  let ?s = "sort_key snd cs"
  have srt: "sorted (map snd ?s)" by simp
  obtain k where k: "k \<le> length ?s" "\<forall>j<k. snd (?s ! j) \<le> v"
      "\<forall>j. k \<le> j \<and> j < length ?s \<longrightarrow> v < snd (?s ! j)"
      "lookup_label (map fst ?s) (map (\<lambda>c. Num (snd c)) ?s) i =
         (if k < length ?s then Inr (i, fst (?s ! k)) else Inl IndexError)"
    using lookup_label_sorted [OF assms(2) srt] by blast
  have "Max (set (map snd cs)) \<in> set (map snd cs)"
    using assms(1) by (intro Max_in) simp_all
  then obtain c where c: "c \<in> set cs" "snd c = Max (set (map snd cs))" by auto
  then obtain j where j: "j < length ?s" "?s ! j = c"
    using sorted_index_of_member by blast
  have "\<not> j < k"
  proof
    assume "j < k"
    with k(2) j(2) c(2) have "Max (set (map snd cs)) \<le> v" by auto
    with assms(3) show False by simp
  qed
  with j(1) have "k < length ?s" by simp
  with k show ?thesis by auto
qed

lemma lookup_label_above_max:
  assumes "cs \<noteq> []" and "item_value i = Some v" and "Max (set (map snd cs)) < v"
  shows "lookup_label (map fst (sort_key snd cs)) (map (\<lambda>c. Num (snd c)) (sort_key snd cs)) i =
        Inl IndexError"
proof -
  let ?s = "sort_key snd cs"
  have srt: "sorted (map snd ?s)" by simp
  obtain k where k: "k \<le> length ?s" 
      "\<forall>j. k \<le> j \<and> j < length ?s \<longrightarrow> v < snd (?s ! j)"
      "lookup_label (map fst ?s) (map (\<lambda>c. Num (snd c)) ?s) i =
         (if k < length ?s then Inr (i, fst (?s ! k)) else Inl IndexError)"
    using lookup_label_sorted [OF assms(2) srt] by blast
  have "\<not> k < length ?s"
  proof
    assume lt: "k < length ?s"
    then have "?s ! k \<in> set ?s" by (rule nth_mem)
    then have "snd (?s ! k) \<in> set (map snd cs)" by auto
    then have "snd (?s ! k) \<le> Max (set (map snd cs))" by (intro Max_ge) simp_all
    moreover from k(2) lt have "v < snd (?s ! k)" by simp
    ultimately show False using assms(3) by simp
  qed
  with k(3) show ?thesis by simp
qed

lemma lookup_label_valid_item:
  assumes "item_value i = Some v"
  shows "lookup_label (map fst (sort_key snd cs)) (map (\<lambda>c. Num (snd c)) (sort_key snd cs)) i = Inl IndexError
    \<or> (\<exists>y. lookup_label (map fst (sort_key snd cs)) (map (\<lambda>c. Num (snd c)) (sort_key snd cs)) i = Inr y)"
proof -
  have "sorted (map snd (sort_key snd cs))" by simp
  from lookup_label_sorted [OF assms this] show ?thesis by (auto split: if_splits)
qed

lemma category_mapping_empty_A: "category_mapping isiter it (shape_A []) = Inl IndexError"
  by (simp add: category_mapping_def first_block_def shape_A_def py_getitem_def
      sort_and_map_def sort_block_def py_sorted_last_def)

lemma category_mapping_empty_Lst: "category_mapping isiter it (Lst []) = Inl IndexError"
  by (simp add: category_mapping_def first_block_def py_getitem_def)

lemma sort_key_permuted:
  assumes "mset cs' = mset cs" and "distinct (map snd cs)"
  shows "sort_key snd cs' = sort_key snd cs"
proof (rule sort_key_inj_key_eq)
  show "mset cs' = mset (sort_key snd cs)" using assms(1) by simp
  have "set cs' = set cs" using assms(1) by (rule mset_eq_setD)
  moreover have "inj_on snd (set cs)" using assms(2) by (simp add: distinct_map)
  ultimately show "inj_on snd (set cs')" by simp
  show "sorted (map snd (sort_key snd cs))" by simp
qed

lemma map_result_fst:
  assumes "map_result f xs = Inr ys" and "\<And>x y. f x = Inr y \<Longrightarrow> fst y = x"
  shows "map fst ys = xs"
  using assms(1)
proof (induction xs arbitrary: ys)
  case Nil
  then show ?case by simp
next
  case (Cons x xs)
  then show ?case by (auto split: sum.splits dest: assms(2))
qed

lemma category_mapping_keeps_items:
  assumes "category_mapping isiter it cats = Inr out"
  shows "length out = length it \<and> map fst out = it"
proof -
  from assms obtain cat0 cat1 where "map_result (lookup_label cat0 cat1) it = Inr out"
    by (auto simp: category_mapping_def sort_and_map_def split: sum.splits list.splits)
  then show ?thesis
    using map_result_length map_result_fst lookup_label_fst by blast
qed

lemma docstring_cats_Max: "Max (set (map snd docstring_cats)) = 31 / 10"
  by (simp add: docstring_cats_def)

text \<open>
  Tables whose first element has no length: the transposition of the first block and the
  sort of line 68 both raise TypeError.
\<close>

lemma py_getitem_error: "py_getitem x i = Inl e \<Longrightarrow> e = TypeError \<or> e = IndexError"
  by (cases x) (auto simp: py_getitem_def Let_def split: if_splits)

lemma py_len_error: "py_len x = Inl e \<Longrightarrow> (\<exists>r. x = Num r) \<and> e = TypeError"
  by (cases x) simp_all

lemma py_getitem_TypeError: "py_getitem x i = Inl TypeError \<Longrightarrow> py_iter x = Inl TypeError"
  by (cases x) (auto simp: py_getitem_def Let_def split: if_splits)

lemma py_getitem_first_Num:
  assumes "py_getitem cats 0 = Inr (Num r)"
  shows "\<exists>ys. py_iter cats = Inr (Num r # ys)"
proof -
  from assms obtain xs where xs: "py_iter cats = Inr xs" "xs \<noteq> []" "xs ! 0 = Num r"
    by (auto simp: py_getitem_def Let_def split: sum.splits if_splits)
  then show ?thesis by (cases xs) auto
qed

lemma no_length_zip_and_sort:
  assumes "py_getitem cats 0 = Inl TypeError \<or> (\<exists>r. py_getitem cats 0 = Inr (Num r))"
  shows "py_zip_star cats = Inl TypeError \<and> py_sorted_last cats = Inl TypeError"
  using assms
proof
  assume "py_getitem cats 0 = Inl TypeError"
  then have "py_iter cats = Inl TypeError" by (rule py_getitem_TypeError)
  then show ?thesis by (simp add: py_zip_star_def py_sorted_last_def)
next
  assume "\<exists>r. py_getitem cats 0 = Inr (Num r)"
  then obtain r ys where "py_iter cats = Inr (Num r # ys)"
    using py_getitem_first_Num by blast
  then show ?thesis by (simp add: py_zip_star_def py_sorted_last_def py_getitem_def)
qed

lemma no_length_both_TypeError:
  assumes "py_getitem cats 0 = Inl TypeError \<or> (\<exists>r. py_getitem cats 0 = Inr (Num r))"
  shows "category_mapping isiter it cats = Inl TypeError"
    and "category_mapping_without_first_block it cats = Inl TypeError"
proof -
  from no_length_zip_and_sort [OF assms]
  have zs: "py_zip_star cats = Inl TypeError" and srt: "py_sorted_last cats = Inl TypeError"
    by simp_all
  from assms zs show "category_mapping isiter it cats = Inl TypeError"
    by (auto simp: category_mapping_def first_block_def)
  from zs srt show "category_mapping_without_first_block it cats = Inl TypeError"
    by (simp add: without_first_block_sort_and_map sort_and_map_def sort_block_def)
qed

lemma first_has_len_cases:
  assumes "py_getitem cats 0 \<noteq> Inl IndexError" and "\<not> first_has_len cats"
  shows "py_getitem cats 0 = Inl TypeError \<or> (\<exists>r. py_getitem cats 0 = Inr (Num r))"
proof (cases "py_getitem cats 0")
  case (Inl e)
  with assms(1) py_getitem_error [of cats 0 e] show ?thesis by auto
next
  case (Inr c0)
  with assms(2) obtain e where "py_len c0 = Inl e"
    by (auto simp: first_has_len_def split: sum.splits)
  with Inr py_len_error [of c0 e] show ?thesis by auto
qed

text \<open>
  Where the sort step dispatches as intended (the last label is not a number), the two
  shapes of a table give the same result.
\<close>

lemma shapes_agree_when_last_label_not_numeric:
  assumes "cs \<noteq> [] \<longrightarrow> \<not> is_Num (fst (last cs))"
    and "isiter (shape_A cs) = Inr a" and "isiter (shape_B cs) = Inr b"
  shows "category_mapping isiter it (shape_A cs) = category_mapping isiter it (shape_B cs)"
proof (cases "cs = []")
  case True
  then show ?thesis
    by (simp add: category_mapping_empty_A) (simp add: shape_B_def category_mapping_empty_Lst)
next
  case False
  with assms show ?thesis
    by (simp add: category_mapping_canonical [where cs = cs])
qed

text \<open>
  On such tables and inputs in range, the label for a value just below a threshold \<open>t\<close> is
  that of the first category with threshold \<open>t\<close> in the order supplied.
\<close>

lemma first_supplied_of_tied_thresholds:
  "(cs \<noteq> [] \<and> (tbl = shape_B cs \<or> tbl = shape_A cs \<and> \<not> is_Num (fst (last cs))) \<and>
      isiter tbl = Inr b \<and>
      (\<forall>i \<in> set it. \<exists>v. item_value i = Some v \<and> v < Max (set (map snd cs))) \<longrightarrow>
    (\<exists>out. category_mapping isiter it tbl = Inr out \<and>
      (\<forall>k<length it. \<forall>v t. item_value (it ! k) = Some v \<and> t \<in> set (map snd cs) \<and> v < t \<and>
          (\<forall>c \<in> set cs. snd c < t \<longrightarrow> snd c < v) \<longrightarrow>
          snd (out ! k) = fst (hd (filter (\<lambda>c. snd c = t) cs))))) \<and>
   (isiter (shape_B [(Str ''first'', 1), (Str ''second'', 1)]) = Inr p \<and>
    isiter (shape_B [(Str ''second'', 1), (Str ''first'', 1)]) = Inr q \<longrightarrow>
      category_mapping isiter [Tup [Str ''x'', Num 0]] (shape_B [(Str ''first'', 1), (Str ''second'', 1)])
        = Inr [(Tup [Str ''x'', Num 0], Str ''first'')] \<and>
      category_mapping isiter [Tup [Str ''x'', Num 0]] (shape_B [(Str ''second'', 1), (Str ''first'', 1)])
        = Inr [(Tup [Str ''x'', Num 0], Str ''second'')])"
proof (intro conjI impI)
  assume "isiter (shape_B [(Str ''first'', 1), (Str ''second'', 1)]) = Inr p \<and>
    isiter (shape_B [(Str ''second'', 1), (Str ''first'', 1)]) = Inr q"
  then show "category_mapping isiter [Tup [Str ''x'', Num 0]] (shape_B [(Str ''first'', 1), (Str ''second'', 1)])
        = Inr [(Tup [Str ''x'', Num 0], Str ''first'')]"
    and "category_mapping isiter [Tup [Str ''x'', Num 0]] (shape_B [(Str ''second'', 1), (Str ''first'', 1)])
        = Inr [(Tup [Str ''x'', Num 0], Str ''second'')]"
    by (simp_all add: eval_defs)
next
  assume h: "cs \<noteq> [] \<and> (tbl = shape_B cs \<or> tbl = shape_A cs \<and> \<not> is_Num (fst (last cs))) \<and>
      isiter tbl = Inr b \<and>
      (\<forall>i \<in> set it. \<exists>v. item_value i = Some v \<and> v < Max (set (map snd cs)))"
  let ?s = "sort_key snd cs"
  let ?f = "lookup_label (map fst ?s) (map (\<lambda>c. Num (snd c)) ?s)"
  from h have ne: "cs \<noteq> []" by simp
  have cm: "category_mapping isiter it tbl = map_result ?f it"
    using h by (intro category_mapping_canonical) auto
  have "\<exists>y. ?f i = Inr y" if "i \<in> set it" for i
  proof -
    from that h obtain v where "item_value i = Some v" "v < Max (set (map snd cs))"
      by blast
    from lookup_label_below_max [OF ne this] show ?thesis by blast
  qed
  then obtain out where out: "map_result ?f it = Inr out"
    using map_result_ex [of it ?f] by blast
  have "snd (out ! k) = fst (hd (filter (\<lambda>c. snd c = t) cs))"
    if k: "k < length it" and v: "item_value (it ! k) = Some v" and t: "t \<in> set (map snd cs)"
      and vt: "v < t" and gap: "\<forall>c \<in> set cs. snd c < t \<longrightarrow> snd c < v" for k v t
  proof -
    have "t \<le> Max (set (map snd cs))" using t by (intro Max_ge) simp_all
    with vt have "v < Max (set (map snd cs))" by simp
    from lookup_label_below_max [OF ne v this] obtain m where m: "m < length cs"
        "?f (it ! k) = Inr (it ! k, fst (?s ! m))" "\<forall>j<m. snd (?s ! j) \<le> v"
        "\<forall>j. m \<le> j \<and> j < length cs \<longrightarrow> v < snd (?s ! j)"
      by blast
    from map_result_nth [OF out k] m(2) have "out ! k = (it ! k, fst (?s ! m))" by simp
    then have outk: "snd (out ! k) = fst (?s ! m)" by simp
    have m_len: "m < length ?s" using m(1) by simp
    have above: "v < snd (?s ! m)" using m(1,4) by simp
    from t obtain c where c: "c \<in> set cs" "snd c = t" by auto
    then obtain j where j: "j < length ?s" "?s ! j = c"
      using sorted_index_of_member by blast
    have "\<not> j < m" using m(3) j(2) c(2) vt by auto
    then have "m \<le> j" by simp
    moreover have "sorted (map snd ?s)" by simp
    ultimately have "map snd ?s ! m \<le> map snd ?s ! j"
      using j(1) by (intro sorted_nth_mono) simp_all
    with j c(2) m_len have le: "snd (?s ! m) \<le> t" by simp
    have "?s ! m \<in> set cs" using nth_mem [OF m_len] by simp
    with gap above have "\<not> snd (?s ! m) < t" by force
    with le have eq: "snd (?s ! m) = t" by simp
    have "filter (\<lambda>c. snd c = t) (take m ?s) = []"
    proof -
      have "snd x \<noteq> t" if "x \<in> set (take m ?s)" for x
      proof -
        from that obtain i where "i < m" "x = ?s ! i"
          using m_len by (auto simp: in_set_conv_nth)
        with m(3) vt show ?thesis by auto
      qed
      then show ?thesis by (simp add: filter_empty_conv)
    qed
    then have "filter (\<lambda>c. snd c = t) (take m ?s @ ?s ! m # drop (Suc m) ?s) =
        ?s ! m # filter (\<lambda>c. snd c = t) (drop (Suc m) ?s)"
      using eq by simp
    then have "filter (\<lambda>c. snd c = t) ?s = ?s ! m # filter (\<lambda>c. snd c = t) (drop (Suc m) ?s)"
      by (simp only: id_take_nth_drop [OF m_len, symmetric])
    then have "hd (filter (\<lambda>c. snd c = t) ?s) = ?s ! m" by simp
    moreover have "filter (\<lambda>c. snd c = t) ?s = filter (\<lambda>c. snd c = t) cs"
      by (rule sort_key_stable)
    ultimately show ?thesis using outk by simp
  qed
  with cm out show "\<exists>out. category_mapping isiter it tbl = Inr out \<and>
      (\<forall>k<length it. \<forall>v t. item_value (it ! k) = Some v \<and> t \<in> set (map snd cs) \<and> v < t \<and>
          (\<forall>c \<in> set cs. snd c < t \<longrightarrow> snd c < v) \<longrightarrow>
          snd (out ! k) = fst (hd (filter (\<lambda>c. snd c = t) cs)))"
    by auto
qed

section \<open>The claims\<close>

subsection \<open>C1\<close>

text \<open>
  Claim C1, as the code has it.  For a non-empty table of either shape (for Shape A the
  last label must not be a number, so that the sort step raises and transposes) and an
  input all of whose items carry a number strictly below the largest threshold, the
  result is a list of the same length whose \<open>k\<close>-th pair holds the \<open>k\<close>-th item and the label
  of a category whose threshold is strictly greater than the item's value and is the
  smallest such threshold.  (\<open>bisect\<close> is \<open>bisect_right\<close>: a value equal to a threshold is
  pushed to the next category.)
\<close>

theorem label_of_smallest_threshold_above:
  assumes "cs \<noteq> []"
    and "tbl = shape_B cs \<or> tbl = shape_A cs \<and> \<not> is_Num (fst (last cs))"
    and "isiter tbl = Inr b"
    and "\<forall>i \<in> set it. \<exists>v. item_value i = Some v \<and> v < Max (set (map snd cs))"
  shows "\<exists>out. category_mapping isiter it tbl = Inr out \<and> length out = length it \<and>
    (\<forall>k<length it. fst (out ! k) = it ! k \<and>
       (\<exists>v t. item_value (it ! k) = Some v \<and> (snd (out ! k), t) \<in> set cs \<and> v < t \<and>
          (\<forall>c \<in> set cs. v < snd c \<longrightarrow> t \<le> snd c)))"
proof -
  let ?s = "sort_key snd cs"
  let ?f = "lookup_label (map fst ?s) (map (\<lambda>c. Num (snd c)) ?s)"
  have cm: "category_mapping isiter it tbl = map_result ?f it"
    using assms(1-3) by (rule category_mapping_canonical)
  have "\<exists>y. ?f i = Inr y" if "i \<in> set it" for i
  proof -
    from that assms(4) obtain v where "item_value i = Some v" "v < Max (set (map snd cs))"
      by blast
    from lookup_label_below_max [OF assms(1) this] show ?thesis by blast
  qed
  then obtain out where out: "map_result ?f it = Inr out"
    using map_result_ex [of it ?f] by blast
  have len: "length out = length it" using out by (rule map_result_length)
  have "fst (out ! k) = it ! k \<and>
       (\<exists>v t. item_value (it ! k) = Some v \<and> (snd (out ! k), t) \<in> set cs \<and> v < t \<and>
          (\<forall>c \<in> set cs. v < snd c \<longrightarrow> t \<le> snd c))" if "k < length it" for k
  proof -
    from that assms(4) obtain v where v: "item_value (it ! k) = Some v" "v < Max (set (map snd cs))"
      by (meson nth_mem)
    from lookup_label_below_max [OF assms(1) v] obtain m where m: "m < length cs"
        "?f (it ! k) = Inr (it ! k, fst (?s ! m))" "\<forall>j<m. snd (?s ! j) \<le> v"
        "\<forall>j. m \<le> j \<and> j < length cs \<longrightarrow> v < snd (?s ! j)"
      by blast
    from map_result_nth [OF out that] m(2) have outk: "out ! k = (it ! k, fst (?s ! m))" by simp
    have "?s ! m \<in> set ?s" using m(1) by (intro nth_mem) simp
    then have mem: "(fst (?s ! m), snd (?s ! m)) \<in> set cs" by simp
    have above: "v < snd (?s ! m)" using m(1,4) by simp
    have least: "snd (?s ! m) \<le> snd c" if "c \<in> set cs" "v < snd c" for c
    proof -
      from that(1) obtain j where j: "j < length ?s" "?s ! j = c"
        using sorted_index_of_member by blast
      have "\<not> j < m" using m(3) j(2) that(2) by auto
      then have "m \<le> j" by simp
      moreover have "sorted (map snd ?s)" by simp
      ultimately have "map snd ?s ! m \<le> map snd ?s ! j"
        using j(1) by (intro sorted_nth_mono) simp_all
      with j m(1) show ?thesis by simp
    qed
    have "\<exists>t. (fst (?s ! m), t) \<in> set cs \<and> v < t \<and> (\<forall>c \<in> set cs. v < snd c \<longrightarrow> t \<le> snd c)"
      using mem above least by blast
    with outk v(1) show ?thesis by simp
  qed
  with cm out len show ?thesis by auto
qed

text \<open>
  The hypotheses of C1's theorem hold for the sample table in Shape B and one item.
\<close>

theorem label_of_smallest_threshold_above_witness:
  "docstring_cats \<noteq> [] \<and>
   (shape_B docstring_cats = shape_B docstring_cats \<or>
    shape_B docstring_cats = shape_A docstring_cats \<and> \<not> is_Num (fst (last docstring_cats))) \<and>
   isiter_sample (shape_B docstring_cats) = Inr True \<and>
   (\<exists>v. item_value (Tup [Str ''brahma'', Num 1]) = Some v \<and>
      v < Max (set (map snd docstring_cats))) \<and>
   (\<exists>out. category_mapping isiter_sample [Tup [Str ''brahma'', Num 1]] (shape_B docstring_cats) = Inr out \<and>
      length out = length [Tup [Str ''brahma'', Num 1]] \<and>
      (\<forall>k<length [Tup [Str ''brahma'', Num 1]].
         fst (out ! k) = [Tup [Str ''brahma'', Num 1]] ! k \<and>
         (\<exists>v t. item_value ([Tup [Str ''brahma'', Num 1]] ! k) = Some v \<and>
            (snd (out ! k), t) \<in> set docstring_cats \<and> v < t \<and>
            (\<forall>c \<in> set docstring_cats. v < snd c \<longrightarrow> t \<le> snd c))))"
proof -
  have h1: "docstring_cats \<noteq> []" by (simp add: docstring_cats_def)
  have h2: "shape_B docstring_cats = shape_B docstring_cats \<or>
    shape_B docstring_cats = shape_A docstring_cats \<and> \<not> is_Num (fst (last docstring_cats))"
    by simp
  have h3: "isiter_sample (shape_B docstring_cats) = Inr True" by (simp add: shape_B_def)
  have item: "\<exists>v. item_value (Tup [Str ''brahma'', Num 1]) = Some v \<and>
      v < Max (set (map snd docstring_cats))"
    using docstring_cats_Max by (simp add: item_value_def py_getitem_def)
  then have h4: "\<forall>i \<in> set [Tup [Str ''brahma'', Num 1]].
      \<exists>v. item_value i = Some v \<and> v < Max (set (map snd docstring_cats))"
    by simp
  show ?thesis
    by (intro conjI h1 h2 h3 item label_of_smallest_threshold_above [where isiter = isiter_sample, OF h1 h2 h3 h4])
qed

text \<open>
  Claim C1 as stated fails: the value 2 equals the threshold of \<open>mais ou menos\<close> and
  receives the label \<open>caro\<close> of the next threshold; the value 3.1 equals the largest
  threshold and raises IndexError instead of receiving \<open>caro\<close>.
\<close>

theorem value_on_threshold_counterexample:
  "category_mapping isiter_sample [Tup [Str ''q'', Num 2]] (shape_B docstring_cats) =
     Inr [(Tup [Str ''q'', Num 2], Str ''caro'')] \<and>
   category_mapping isiter_sample [Tup [Str ''r'', Num (31 / 10)]] (shape_B docstring_cats) =
     Inl IndexError"
  by (simp add: eval_defs docstring_cats_def)

subsection \<open>C2\<close>

text \<open>
  Claim C2, as the code has it: on the Shape A table of the scenario and the three items
  \<open>a\<close>, \<open>b\<close>, \<open>c\<close> the result is \<open>caro\<close>, \<open>barato\<close> and, for the value 1.3 that equals the
  first threshold, \<open>mais ou menos\<close>.  The table has three columns, so \<open>isiter\<close> is never
  called and the result holds for every \<open>isiter\<close>.
\<close>

theorem scenario_shape_A_result: "category_mapping isiter
     [Tup [Str ''a'', Num (5 / 2)], Tup [Str ''b'', Num (1 / 2)], Tup [Str ''c'', Num (13 / 10)]]
     (shape_A docstring_cats) =
   Inr [(Tup [Str ''a'', Num (5 / 2)], Str ''caro''),
        (Tup [Str ''b'', Num (1 / 2)], Str ''barato''),
        (Tup [Str ''c'', Num (13 / 10)], Str ''mais ou menos'')]"
  by (simp add: eval_defs docstring_cats_def)

text \<open>
  Claim C2 as stated fails: the result is not the list that ends with \<open>((c, 1.3), barato)\<close>.
\<close>

theorem scenario_shape_A_counterexample: "category_mapping isiter_sample
     [Tup [Str ''a'', Num (5 / 2)], Tup [Str ''b'', Num (1 / 2)], Tup [Str ''c'', Num (13 / 10)]]
     (shape_A docstring_cats) \<noteq>
   Inr [(Tup [Str ''a'', Num (5 / 2)], Str ''caro''),
        (Tup [Str ''b'', Num (1 / 2)], Str ''barato''),
        (Tup [Str ''c'', Num (13 / 10)], Str ''barato'')]"
  by (simp add: eval_defs docstring_cats_def)

subsection \<open>C3\<close>

text \<open>
  Claim C3, as the code has it.  For a non-empty table in Shape B, or in Shape A with a
  last label that is not a number, and an input all of whose items carry a number, one
  of them strictly above the largest threshold, the call raises IndexError: the exception of the list access \<open>cat0[...]\<close> with an index past
  the end.  There is no check of the range and no exception of its own.
\<close>

theorem value_above_all_thresholds_IndexError:
  assumes "cs \<noteq> []"
    and "tbl = shape_B cs \<or> tbl = shape_A cs \<and> \<not> is_Num (fst (last cs))"
    and "isiter tbl = Inr b"
    and "\<forall>i \<in> set it. item_value i \<noteq> None"
    and "\<exists>i \<in> set it. \<exists>v. item_value i = Some v \<and> Max (set (map snd cs)) < v"
  shows "category_mapping isiter it tbl = Inl IndexError"
proof -
  let ?s = "sort_key snd cs"
  let ?f = "lookup_label (map fst ?s) (map (\<lambda>c. Num (snd c)) ?s)"
  have cm: "category_mapping isiter it tbl = map_result ?f it"
    using assms(1-3) by (rule category_mapping_canonical)
  have "?f i = Inl IndexError \<or> (\<exists>y. ?f i = Inr y)" if "i \<in> set it" for i
  proof -
    from that assms(4) obtain v where "item_value i = Some v" by auto
    then show ?thesis by (rule lookup_label_valid_item)
  qed
  moreover have "\<exists>i \<in> set it. ?f i = Inl IndexError"
    using assms(5) lookup_label_above_max [OF assms(1)] by blast
  ultimately have "map_result ?f it = Inl IndexError"
    by (intro map_result_first_error) blast+
  with cm show ?thesis by simp
qed

text \<open>
  The hypotheses of C3's theorem hold for the sample table in Shape A and two items.
\<close>

theorem value_above_all_thresholds_IndexError_witness:
  "docstring_cats \<noteq> [] \<and>
   (shape_A docstring_cats = shape_B docstring_cats \<or>
    shape_A docstring_cats = shape_A docstring_cats \<and> \<not> is_Num (fst (last docstring_cats))) \<and>
   isiter_sample (shape_A docstring_cats) = Inr True \<and>
   item_value (Tup [Str ''Skol'', Num 1]) \<noteq> None \<and>
   item_value (Tup [Str ''becks'', Num 16]) \<noteq> None \<and>
   (\<exists>i \<in> set [Tup [Str ''Skol'', Num 1], Tup [Str ''becks'', Num 16]].
      \<exists>v. item_value i = Some v \<and> Max (set (map snd docstring_cats)) < v) \<and>
   category_mapping isiter_sample [Tup [Str ''Skol'', Num 1], Tup [Str ''becks'', Num 16]]
     (shape_A docstring_cats) = Inl IndexError"
proof -
  have h1: "docstring_cats \<noteq> []" by (simp add: docstring_cats_def)
  have h2: "shape_A docstring_cats = shape_B docstring_cats \<or>
    shape_A docstring_cats = shape_A docstring_cats \<and> \<not> is_Num (fst (last docstring_cats))"
    by (simp add: docstring_cats_def)
  have h3: "isiter_sample (shape_A docstring_cats) = Inr True" by (simp add: shape_A_def)
  have items: "item_value (Tup [Str ''Skol'', Num 1]) \<noteq> None"
    "item_value (Tup [Str ''becks'', Num 16]) \<noteq> None"
    by (simp_all add: item_value_def py_getitem_def)
  then have h4: "\<forall>i \<in> set [Tup [Str ''Skol'', Num 1], Tup [Str ''becks'', Num 16]]. item_value i \<noteq> None"
    by simp
  have h5: "\<exists>i \<in> set [Tup [Str ''Skol'', Num 1], Tup [Str ''becks'', Num 16]].
      \<exists>v. item_value i = Some v \<and> Max (set (map snd docstring_cats)) < v"
    using docstring_cats_Max by (simp add: item_value_def py_getitem_def)
  show ?thesis
    by (intro conjI h1 h2 h3 items h5 value_above_all_thresholds_IndexError [where isiter = isiter_sample, OF h1 h2 h3 h4 h5])
qed

text \<open>
  Claim C3 as stated fails: for the value 1000 the index computed by \<open>bisect\<close> is the
  number of labels, the labels are read past their end, and what the caller sees is the
  IndexError of that read.
\<close>

theorem index_past_the_labels_counterexample:
  "bisect (map (\<lambda>c. Num (snd c)) docstring_cats) (Num 1000) = Inr (length docstring_cats) \<and>
   category_mapping isiter_sample [Tup [Str ''a'', Num 1000]] (shape_A docstring_cats) =
     Inl IndexError"
  by (simp add: eval_defs docstring_cats_def)

subsection \<open>C4\<close>

text \<open>
  Claim C4 at the table with the three numeric labels 10, 20, 30.  In Shape A the sort of
  line 68 compares the keys 30 and 3 without a TypeError, so the two rows are sorted as
  they are and never transposed; line 74 then finds three columns to unpack and raises
  ValueError.  In Shape B the same categories give the item with value 1.5 the label 20.
  The two shapes do not give the same result.
\<close>

theorem shapes_disagree_numeric_labels:
  "category_mapping isiter_sample [Tup [Str ''x'', Num (3 / 2)]]
       (shape_A [(Num 10, 1), (Num 20, 2), (Num 30, 3)]) = Inl ValueError \<and>
   category_mapping isiter_sample [Tup [Str ''x'', Num (3 / 2)]]
       (shape_B [(Num 10, 1), (Num 20, 2), (Num 30, 3)]) = Inr [(Tup [Str ''x'', Num (3 / 2)], Num 20)]"
  by (simp add: eval_defs)

subsection \<open>C5\<close>

text \<open>
  Claim C5, as the code has it.  For a non-empty table with pairwise distinct thresholds
  (in Shape A: with labels that are not numbers), every reordering of its categories
  gives the same result on every input.
\<close>

theorem permutation_invariant_distinct_thresholds:
  assumes "mset cs' = mset cs" and "distinct (map snd cs)" and "cs \<noteq> []"
    and "tbl = shape_B cs \<and> tbl' = shape_B cs' \<or>
         tbl = shape_A cs \<and> tbl' = shape_A cs' \<and> (\<forall>c \<in> set cs. \<not> is_Num (fst c))"
    and "isiter tbl = Inr b" and "isiter tbl' = Inr b'"
  shows "category_mapping isiter it tbl' = category_mapping isiter it tbl"
proof -
  have set_eq: "set cs' = set cs" using assms(1) by (rule mset_eq_setD)
  with assms(3) have ne': "cs' \<noteq> []" by auto
  have shape: "tbl = shape_B cs \<or> tbl = shape_A cs \<and> \<not> is_Num (fst (last cs))"
    using assms(3,4) by auto
  have "last cs' \<in> set cs" using ne' set_eq last_in_set by blast
  then have shape': "tbl' = shape_B cs' \<or> tbl' = shape_A cs' \<and> \<not> is_Num (fst (last cs'))"
    using assms(4) by auto
  have "category_mapping isiter it tbl =
      map_result (lookup_label (map fst (sort_key snd cs)) (map (\<lambda>c. Num (snd c)) (sort_key snd cs))) it"
    using assms(3) shape assms(5) by (rule category_mapping_canonical)
  moreover have "category_mapping isiter it tbl' =
      map_result (lookup_label (map fst (sort_key snd cs')) (map (\<lambda>c. Num (snd c)) (sort_key snd cs'))) it"
    using ne' shape' assms(6) by (rule category_mapping_canonical)
  ultimately show ?thesis
    by (simp add: sort_key_permuted [OF assms(1,2)])
qed

text \<open>
  The hypotheses of C5's theorem hold for the sample table and a reordering of it.
\<close>

theorem permutation_invariant_distinct_thresholds_witness:
  "mset [(Str ''caro'', 31 / 10), (Str ''barato'', 13 / 10), (Str ''mais ou menos'', 2)] = mset docstring_cats \<and>
   distinct (map snd docstring_cats) \<and> docstring_cats \<noteq> [] \<and>
   isiter_sample (shape_B docstring_cats) = Inr True \<and>
   isiter_sample (shape_B [(Str ''caro'', 31 / 10), (Str ''barato'', 13 / 10), (Str ''mais ou menos'', 2)]) = Inr True \<and>
   category_mapping isiter_sample [Tup [Str ''original'', Num (5 / 2)]]
     (shape_B [(Str ''caro'', 31 / 10), (Str ''barato'', 13 / 10), (Str ''mais ou menos'', 2)]) =
   category_mapping isiter_sample [Tup [Str ''original'', Num (5 / 2)]] (shape_B docstring_cats)"
proof -
  let ?cs' = "[(Str ''caro'', 31 / 10 :: rat), (Str ''barato'', 13 / 10), (Str ''mais ou menos'', 2)]"
  have h1: "mset ?cs' = mset docstring_cats" by (simp add: docstring_cats_def)
  have h2: "distinct (map snd docstring_cats)" by (simp add: docstring_cats_def)
  have h3: "docstring_cats \<noteq> []" by (simp add: docstring_cats_def)
  have h4: "shape_B docstring_cats = shape_B docstring_cats \<and> shape_B ?cs' = shape_B ?cs' \<or>
         shape_B docstring_cats = shape_A docstring_cats \<and> shape_B ?cs' = shape_A ?cs' \<and>
         (\<forall>c \<in> set docstring_cats. \<not> is_Num (fst c))"
    by simp
  have h5: "isiter_sample (shape_B docstring_cats) = Inr True" by (simp add: shape_B_def)
  have h6: "isiter_sample (shape_B ?cs') = Inr True" by (simp add: shape_B_def)
  show ?thesis
    by (intro conjI h1 h2 h3 h5 h6 permutation_invariant_distinct_thresholds [where isiter = isiter_sample, OF h1 h2 h3 h4 h5 h6])
qed

text \<open>
  Claim C5 as stated fails when two categories share a threshold: the value 4 is labelled
  \<open>low\<close> by one order of the table and \<open>cheap\<close> by another.
\<close>

theorem permutation_tied_thresholds_counterexample:
  "category_mapping isiter_sample [Tup [Str ''x'', Num 4]]
       (shape_B [(Str ''low'', 5), (Str ''cheap'', 5), (Str ''high'', 9)]) =
     Inr [(Tup [Str ''x'', Num 4], Str ''low'')] \<and>
   category_mapping isiter_sample [Tup [Str ''x'', Num 4]]
       (shape_B [(Str ''cheap'', 5), (Str ''high'', 9), (Str ''low'', 5)]) =
     Inr [(Tup [Str ''x'', Num 4], Str ''cheap'')]"
  by (simp add: eval_defs)

subsection \<open>C6\<close>

text \<open>
  Claim C6.  Whatever the table, an output has the length of the input and its first
  components are the input's items, in order; and a valid table maps the empty input to
  the empty output.
\<close>

theorem output_keeps_items_in_order:
  "(category_mapping isiter it cats = Inr out \<longrightarrow> length out = length it \<and> map fst out = it) \<and>
   (cs \<noteq> [] \<and> (tbl = shape_B cs \<or> tbl = shape_A cs \<and> \<not> is_Num (fst (last cs))) \<and>
      isiter tbl = Inr b \<longrightarrow> category_mapping isiter [] tbl = Inr [])"
  using category_mapping_keeps_items [of isiter it cats out]
    category_mapping_canonical [of cs tbl isiter b "[]"]
  by auto

text \<open>
  Both hypotheses of C6's theorem hold for the sample table in Shape A.
\<close>

theorem output_keeps_items_in_order_witness:
  "category_mapping isiter_sample [Tup [Str ''Skol'', Num 1], Tup [Str ''original'', Num 3]]
       (shape_A docstring_cats) =
     Inr [(Tup [Str ''Skol'', Num 1], Str ''barato''), (Tup [Str ''original'', Num 3], Str ''caro'')] \<and>
   (length [(Tup [Str ''Skol'', Num 1], Str ''barato''), (Tup [Str ''original'', Num 3], Str ''caro'')] =
      length [Tup [Str ''Skol'', Num 1], Tup [Str ''original'', Num 3]] \<and>
    map fst [(Tup [Str ''Skol'', Num 1], Str ''barato''), (Tup [Str ''original'', Num 3], Str ''caro'')] =
      [Tup [Str ''Skol'', Num 1], Tup [Str ''original'', Num 3]]) \<and>
   (docstring_cats \<noteq> [] \<and>
    (shape_A docstring_cats = shape_B docstring_cats \<or>
     shape_A docstring_cats = shape_A docstring_cats \<and> \<not> is_Num (fst (last docstring_cats))) \<and>
    isiter_sample (shape_A docstring_cats) = Inr True) \<and>
   category_mapping isiter_sample [] (shape_A docstring_cats) = Inr []"
proof -
  note inst = output_keeps_items_in_order [where isiter = isiter_sample and cats = "shape_A docstring_cats"
      and it = "[Tup [Str ''Skol'', Num 1], Tup [Str ''original'', Num 3]]"
      and out = "[(Tup [Str ''Skol'', Num 1], Str ''barato''), (Tup [Str ''original'', Num 3], Str ''caro'')]"
      and cs = docstring_cats and tbl = "shape_A docstring_cats" and b = True]
  have run: "category_mapping isiter_sample [Tup [Str ''Skol'', Num 1], Tup [Str ''original'', Num 3]]
       (shape_A docstring_cats) =
     Inr [(Tup [Str ''Skol'', Num 1], Str ''barato''), (Tup [Str ''original'', Num 3], Str ''caro'')]"
    by (simp add: eval_defs docstring_cats_def)
  have valid: "docstring_cats \<noteq> [] \<and>
    (shape_A docstring_cats = shape_B docstring_cats \<or>
     shape_A docstring_cats = shape_A docstring_cats \<and> \<not> is_Num (fst (last docstring_cats))) \<and>
    isiter_sample (shape_A docstring_cats) = Inr True"
    by (simp add: docstring_cats_def shape_A_def)
  show ?thesis
    by (intro conjI run valid mp [OF conjunct1 [OF inst] run] mp [OF conjunct2 [OF inst] valid])
qed

subsection \<open>C7\<close>

text \<open>
  Claim C7, as the code has it.  A table without categories makes the call raise,
  whatever the input and whatever \<open>isiter\<close> does: the empty list or tuple (the empty
  Shape B table) at \<open>cats[0]\<close>, the Shape A table of two empty rows at the sort key
  \<open>x[-1]\<close>.  The exception is IndexError in each case.
\<close>

theorem empty_table_raises:
  "category_mapping isiter it (Lst []) = Inl IndexError \<and>
   category_mapping isiter it (Tup []) = Inl IndexError \<and>
   category_mapping isiter it (shape_B []) = Inl IndexError \<and>
   category_mapping isiter it (shape_A []) = Inl IndexError"
  by (simp add: category_mapping_empty_A category_mapping_empty_Lst)
     (simp add: category_mapping_def first_block_def py_getitem_def shape_B_def)

text \<open>
  Claim C7 as stated fails in the kind of the exception: on the empty table the call
  raises IndexError, which is not the TypeError of a table of the wrong type or shape.
\<close>

theorem empty_table_not_TypeError_counterexample:
  "category_mapping isiter_sample [Tup [Str ''a'', Num 1]] (Lst []) = Inl IndexError \<and>
   category_mapping isiter_sample [Tup [Str ''a'', Num 1]] (Lst []) \<noteq> Inl TypeError"
  by (simp add: category_mapping_empty_Lst)

subsection \<open>C8\<close>

text \<open>
  Claim C8.  For the Shape A table \<open>[[10, 20], [1.0, 2.0]]\<close>, when \<open>isiter\<close> returns, the first
  block keeps the table, the sort step succeeds on the two rows as they are (thresholds
  row first, labels row second) and nothing is transposed; the item with value 1.5 is
  then given the label 1, which is no label of the table.
\<close>

theorem numeric_labels_sorted_as_rows:
  "isiter (shape_A [(Num 10, 1), (Num 20, 2)]) = Inr b \<Longrightarrow>
   first_block isiter (shape_A [(Num 10, 1), (Num 20, 2)]) = Inr (shape_A [(Num 10, 1), (Num 20, 2)]) \<and>
   py_sorted_last (shape_A [(Num 10, 1), (Num 20, 2)]) = Inr [Lst [Num 1, Num 2], Lst [Num 10, Num 20]] \<and>
   category_mapping isiter [Tup [Str ''x'', Num (3 / 2)]] (shape_A [(Num 10, 1), (Num 20, 2)]) =
     Inr [(Tup [Str ''x'', Num (3 / 2)], Num 1)] \<and>
   Num 1 \<notin> set (map fst [(Num 10, 1 :: rat), (Num 20, 2)])"
  by (simp add: eval_defs)

text \<open>
  The hypothesis of C8's theorem holds for the sample \<open>isiter\<close>.
\<close>

theorem numeric_labels_sorted_as_rows_witness:
  "isiter_sample (shape_A [(Num 10, 1), (Num 20, 2)]) = Inr True \<and>
   first_block isiter_sample (shape_A [(Num 10, 1), (Num 20, 2)]) = Inr (shape_A [(Num 10, 1), (Num 20, 2)]) \<and>
   py_sorted_last (shape_A [(Num 10, 1), (Num 20, 2)]) = Inr [Lst [Num 1, Num 2], Lst [Num 10, Num 20]] \<and>
   category_mapping isiter_sample [Tup [Str ''x'', Num (3 / 2)]] (shape_A [(Num 10, 1), (Num 20, 2)]) =
     Inr [(Tup [Str ''x'', Num (3 / 2)], Num 1)] \<and>
   Num 1 \<notin> set (map fst [(Num 10, 1 :: rat), (Num 20, 2)])"
proof -
  have h: "isiter_sample (shape_A [(Num 10, 1), (Num 20, 2)]) = Inr True"
    by (simp add: shape_A_def)
  show ?thesis
    by (intro conjI h numeric_labels_sorted_as_rows [where isiter = isiter_sample, OF h])
qed

subsection \<open>C9\<close>


subsection \<open>C10\<close>

text \<open>
  Claim C10, as the code has it.  Every Shape A table and every non-empty Shape B table
  has a first element with a length.  For every table with such a first element on which
  \<open>isiter\<close> returns, the first block leaves the table as it is, and \<open>category_mapping\<close>
  equals its variant without the first block on every input.  The two also agree on a
  table whose first element exists and has no length: both raise TypeError.  The shape
  is told by the sort step: on a Shape A table whose last label is not a number the sort
  of line 68 raises TypeError and the handler transposes and sorts, on a Shape B table the
  sort of line 68 succeeds, and both end with the rows (label, threshold) in order of
  threshold.
\<close>

theorem first_block_changes_nothing:
  "first_has_len (shape_A cs) \<and>
   (cs \<noteq> [] \<longrightarrow> first_has_len (shape_B cs)) \<and>
   (first_has_len cats \<and> isiter cats = Inr b \<longrightarrow>
      first_block isiter cats = Inr cats \<and>
      category_mapping isiter it cats = category_mapping_without_first_block it cats) \<and>
   (py_getitem flat 0 \<noteq> Inl IndexError \<and> \<not> first_has_len flat \<longrightarrow>
      category_mapping isiter it flat = Inl TypeError \<and>
      category_mapping_without_first_block it flat = Inl TypeError) \<and>
   (cs \<noteq> [] \<and> \<not> is_Num (fst (last cs)) \<longrightarrow>
      py_sorted_last (shape_A cs) = Inl TypeError \<and>
      sort_block (shape_A cs) = Inr (map (\<lambda>c. Lst [fst c, Num (snd c)]) (sort_key snd cs))) \<and>
   py_sorted_last (shape_B cs) = Inr (map (\<lambda>c. Tup [fst c, Num (snd c)]) (sort_key snd cs)) \<and>
   sort_block (shape_B cs) = Inr (map (\<lambda>c. Tup [fst c, Num (snd c)]) (sort_key snd cs))"
proof (intro conjI impI)
  show "first_has_len (shape_A cs)"
    by (simp add: first_has_len_def shape_A_def py_getitem_def)
  show "first_has_len (shape_B cs)" if "cs \<noteq> []"
    using that by (simp add: first_has_len_def shape_B_def py_getitem_first_Lst hd_map)
  show "py_sorted_last (shape_A cs) = Inl TypeError"
    if "cs \<noteq> [] \<and> \<not> is_Num (fst (last cs))"
    using that by (simp add: py_sorted_last_shape_A)
  show "sort_block (shape_A cs) = Inr (map (\<lambda>c. Lst [fst c, Num (snd c)]) (sort_key snd cs))"
    if "cs \<noteq> [] \<and> \<not> is_Num (fst (last cs))"
    using that by (simp add: sort_block_shape_A)
  show "py_sorted_last (shape_B cs) = Inr (map (\<lambda>c. Tup [fst c, Num (snd c)]) (sort_key snd cs))"
    unfolding shape_B_def by (rule py_sorted_last_num) simp
  show "sort_block (shape_B cs) = Inr (map (\<lambda>c. Tup [fst c, Num (snd c)]) (sort_key snd cs))"
    by (rule sort_block_shape_B)
next
  assume h: "first_has_len cats \<and> isiter cats = Inr b"
  then obtain c0 n where "py_getitem cats 0 = Inr c0" "py_len c0 = Inr n"
    by (auto simp: first_has_len_def split: sum.splits)
  with h show fb: "first_block isiter cats = Inr cats"
    by (simp add: first_block_keeps)
  have "category_mapping isiter it cats = sort_and_map it cats"
    by (simp add: category_mapping_def fb)
  then show "category_mapping isiter it cats = category_mapping_without_first_block it cats"
    by (simp only: without_first_block_sort_and_map)
next
  assume "py_getitem flat 0 \<noteq> Inl IndexError \<and> \<not> first_has_len flat"
  then have "py_getitem flat 0 = Inl TypeError \<or> (\<exists>r. py_getitem flat 0 = Inr (Num r))"
    by (simp add: first_has_len_cases)
  then show "category_mapping isiter it flat = Inl TypeError"
    and "category_mapping_without_first_block it flat = Inl TypeError"
    by (rule no_length_both_TypeError)+
qed

text \<open>
  The hypotheses of C10's theorem hold: for the sample table in both shapes, and for a
  flat list of numbers in place of a table.
\<close>

theorem first_block_changes_nothing_witness:
  "docstring_cats \<noteq> [] \<and> first_has_len (shape_B docstring_cats) \<and>
   isiter_sample (shape_B docstring_cats) = Inr True \<and>
   first_block isiter_sample (shape_B docstring_cats) = Inr (shape_B docstring_cats) \<and>
   category_mapping isiter_sample [Tup [Str ''Skol'', Num 1]] (shape_B docstring_cats) =
     category_mapping_without_first_block [Tup [Str ''Skol'', Num 1]] (shape_B docstring_cats) \<and>
   py_getitem (Lst [Num 1, Num 2]) 0 \<noteq> Inl IndexError \<and> \<not> first_has_len (Lst [Num 1, Num 2]) \<and>
   category_mapping isiter_sample [Tup [Str ''Skol'', Num 1]] (Lst [Num 1, Num 2]) = Inl TypeError \<and>
   category_mapping_without_first_block [Tup [Str ''Skol'', Num 1]] (Lst [Num 1, Num 2]) = Inl TypeError \<and>
   \<not> is_Num (fst (last docstring_cats)) \<and>
   py_sorted_last (shape_A docstring_cats) = Inl TypeError \<and>
   sort_block (shape_A docstring_cats) =
     Inr (map (\<lambda>c. Lst [fst c, Num (snd c)]) (sort_key snd docstring_cats))"
proof -
  note inst = first_block_changes_nothing [where isiter = isiter_sample
      and cats = "shape_B docstring_cats" and cs = docstring_cats and b = True
      and it = "[Tup [Str ''Skol'', Num 1]]" and flat = "Lst [Num 1, Num 2]"]
  have ne: "docstring_cats \<noteq> []" by (simp add: docstring_cats_def)
  have len: "first_has_len (shape_B docstring_cats)"
    by (rule mp [OF conjunct1 [OF conjunct2 [OF inst]] ne])
  have ret: "isiter_sample (shape_B docstring_cats) = Inr True" by (simp add: shape_B_def)
  have flat: "py_getitem (Lst [Num 1, Num 2]) 0 \<noteq> Inl IndexError"
    "\<not> first_has_len (Lst [Num 1, Num 2])"
    by (simp_all add: py_getitem_def first_has_len_def)
  have label: "\<not> is_Num (fst (last docstring_cats))" by (simp add: docstring_cats_def)
  from inst have block: "first_has_len (shape_B docstring_cats) \<and>
      isiter_sample (shape_B docstring_cats) = Inr True \<longrightarrow>
      first_block isiter_sample (shape_B docstring_cats) = Inr (shape_B docstring_cats) \<and>
      category_mapping isiter_sample [Tup [Str ''Skol'', Num 1]] (shape_B docstring_cats) =
        category_mapping_without_first_block [Tup [Str ''Skol'', Num 1]] (shape_B docstring_cats)"
    by (rule conjunct1 [OF conjunct2 [OF conjunct2]])
  from inst have nolen: "py_getitem (Lst [Num 1, Num 2]) 0 \<noteq> Inl IndexError \<and>
      \<not> first_has_len (Lst [Num 1, Num 2]) \<longrightarrow>
      category_mapping isiter_sample [Tup [Str ''Skol'', Num 1]] (Lst [Num 1, Num 2]) = Inl TypeError \<and>
      category_mapping_without_first_block [Tup [Str ''Skol'', Num 1]] (Lst [Num 1, Num 2]) = Inl TypeError"
    by (rule conjunct1 [OF conjunct2 [OF conjunct2 [OF conjunct2]]])
  from inst have dispatch: "docstring_cats \<noteq> [] \<and> \<not> is_Num (fst (last docstring_cats)) \<longrightarrow>
      py_sorted_last (shape_A docstring_cats) = Inl TypeError \<and>
      sort_block (shape_A docstring_cats) =
        Inr (map (\<lambda>c. Lst [fst c, Num (snd c)]) (sort_key snd docstring_cats))"
    by (rule conjunct1 [OF conjunct2 [OF conjunct2 [OF conjunct2 [OF conjunct2]]]])
  show ?thesis
    by (intro conjI ne len ret flat label
        conjunct1 [OF mp [OF block conjI [OF len ret]]]
        conjunct2 [OF mp [OF block conjI [OF len ret]]]
        conjunct1 [OF mp [OF nolen conjI [OF flat]]]
        conjunct2 [OF mp [OF nolen conjI [OF flat]]]
        conjunct1 [OF mp [OF dispatch conjI [OF ne label]]]
        conjunct2 [OF mp [OF dispatch conjI [OF ne label]]])
qed

text \<open>
  Claim C10 as stated fails for the Shape B table without categories: the empty list has
  no first element, the function raises IndexError at \<open>cats[0]\<close>, and the variant without
  the first block raises ValueError at the unpacking of line 74.
\<close>

theorem empty_shape_B_first_block_counterexample:
  "\<not> first_has_len (shape_B []) \<and>
   category_mapping isiter_sample [] (shape_B []) = Inl IndexError \<and>
   category_mapping_without_first_block [] (shape_B []) = Inl ValueError"
  by (simp add: first_has_len_def shape_B_def py_getitem_def category_mapping_empty_Lst
      without_first_block_sort_and_map sort_and_map_def sort_block_def py_sorted_last_def
      py_zip_star_def zip_rows_def)

end
